theory Spec2Isabelle
  imports Main "HOL-Library.Word"
begin

section \<open>ImportRecipientsService (events/lib/import\_recipients\_service.js)\<close>

text \<open>
  A shallow embedding of the class \<open>ImportRecipientsService\<close>. The instance fields
  become a record that every method takes and returns; promises become explicit
  settlements; the external collaborators (S3, the CSV decoder, \<open>Recipient.saveAll\<close>,
  the Lambda client, the clock, the remaining-time query) become fields of an environment
  record that answers each call. Calls to \<open>debug\<close> only log and are left out.
\<close>

subsection \<open>Strings\<close>

text \<open>A JavaScript string is a sequence of 16-bit code units.\<close>

type_synonym code_unit = "16 word"
type_synonym jsstring = "code_unit list"

definition ascii :: "string \<Rightarrow> jsstring" where
  "ascii s = map of_char s"

text \<open>
  A property read or an array index that is absent gives \<open>undefined\<close>: such values are
  options, \<open>None\<close> for \<open>undefined\<close>. \<open>ToString\<close> is what a template literal and
  \<open>RegExp.prototype.test\<close> apply to their argument.
\<close>

definition ToString :: "jsstring option \<Rightarrow> jsstring" where
  "ToString v = (case v of None \<Rightarrow> ascii ''undefined'' | Some s \<Rightarrow> s)"

text \<open>\<open>String.prototype.split\<close> with a one-unit separator: never an empty array.\<close>

fun split_str :: "'a \<Rightarrow> 'a list \<Rightarrow> 'a list list" where
  "split_str c [] = [[]]"
| "split_str c (x # xs) =
     (if x = c then [] # split_str c xs
      else (case split_str c xs of [] \<Rightarrow> [[x]] | w # ws \<Rightarrow> (x # w) # ws))"

definition index :: "'a list \<Rightarrow> nat \<Rightarrow> 'a option" where
  "index xs i = (if i < length xs then Some (xs ! i) else None)"

text \<open>
  \<open>Array.prototype.slice(start, end)\<close> on integers: a negative bound counts from the
  end, both bounds are clamped to the array, an empty range gives the empty array.
\<close>

definition slice_arr :: "'a list \<Rightarrow> int \<Rightarrow> int \<Rightarrow> 'a list" where
  "slice_arr xs start end =
     (let len = int (length xs);
          k = (if start < 0 then max (len + start) 0 else min start len);
          final = (if end < 0 then max (len + end) 0 else min end len)
      in take (nat (final - k)) (drop (nat k) xs))"

subsection \<open>The regular expression of filterByEmail\<close>

text \<open>
  \<open>\S\<close> is every code unit that is neither WhiteSpace nor LineTerminator of ECMAScript.
\<close>

definition is_space :: "code_unit \<Rightarrow> bool" where
  "is_space c =
     (c = 0x0009 \<or> c = 0x000A \<or> c = 0x000B \<or> c = 0x000C \<or> c = 0x000D \<or> c = 0x0020
      \<or> c = 0x00A0 \<or> c = 0x1680 \<or> (0x2000 \<le> c \<and> c \<le> 0x200A) \<or> c = 0x2028
      \<or> c = 0x2029 \<or> c = 0x202F \<or> c = 0x205F \<or> c = 0x3000 \<or> c = 0xFEFF)"

text \<open>
  The pattern \<open>/\S+@\S+\.\S+/\<close> is a sequence of atoms, each \<open>\S+\<close> or one literal
  unit. \<open>match_here\<close> is a match starting at the head of the string (with backtracking
  over the length of each \<open>\S+\<close>); \<open>test\<close> is \<open>RegExp.prototype.test\<close> of a pattern
  without flags: a match starting at any position.
\<close>

datatype atom = NonSpacePlus | Lit code_unit

fun match_here :: "atom list \<Rightarrow> jsstring \<Rightarrow> bool" where
  "match_here [] s = True"
| "match_here (Lit c # r) [] = False"
| "match_here (Lit c # r) (x # xs) = (x = c \<and> match_here r xs)"
| "match_here (NonSpacePlus # r) [] = False"
| "match_here (NonSpacePlus # r) (x # xs) =
     (\<not> is_space x \<and> (match_here r xs \<or> match_here (NonSpacePlus # r) xs))"

fun test :: "atom list \<Rightarrow> jsstring \<Rightarrow> bool" where
  "test p [] = match_here p []"
| "test p (x # xs) = (match_here p (x # xs) \<or> test p xs)"

definition at_sign :: code_unit where
  "at_sign = 0x0040"

definition full_stop :: code_unit where
  "full_stop = 0x002E"

definition email_pattern :: "atom list" where
  "email_pattern = [NonSpacePlus, Lit at_sign, NonSpacePlus, Lit full_stop, NonSpacePlus]"

subsection \<open>Data\<close>

record s3Event =
  bucket_name :: jsstring
  object_key :: jsstring

text \<open>A decoded CSV row: the object that maps each header to the value of its column.\<close>

type_synonym row = "jsstring \<rightharpoonup> jsstring"

text \<open>The object \<open>newRecp\<close> that \<open>parseCSV\<close> builds for a row.\<close>

record recipient =
  rcp_id :: jsstring
  rcp_userId :: "jsstring option"
  rcp_listId :: "jsstring option"
  rcp_email :: "jsstring option"
  rcp_metadata :: "jsstring \<rightharpoonup> jsstring option"
  rcp_status :: jsstring
  rcp_isConfirmed :: bool
  rcp_createdAt :: int

record js_error =
  err_message :: jsstring
  err_stack :: jsstring

datatype status = SUCCESS | FAILED

text \<open>
  The object \<open>importStatus\<close> of \<open>saveRecipients\<close>. The SUCCESS object has no
  \<open>message\<close> and no \<open>stackTrace\<close> key.
\<close>

record report =
  rep_listId :: "jsstring option"
  rep_userId :: "jsstring option"
  rep_totalRecipientsCount :: nat
  rep_corruptedEmailsCount :: nat
  rep_corruptedEmails :: "jsstring option list"
  rep_importedCount :: int
  rep_importStatus :: status
  rep_updatedAt :: jsstring
  rep_message :: "jsstring option"
  rep_stackTrace :: "jsstring option"

text \<open>The payload \<open>{ Records: [{ s3: this.s3Event }], importOffset: this.importOffset }\<close>.\<close>

record payload =
  pl_s3 :: s3Event
  pl_importOffset :: int

text \<open>
  What \<open>data.UnprocessedItems\<close> can be in the object \<open>Recipient.saveAll\<close> resolves
  with: absent, an object that is not an Array (the map from table names to requests of a
  batch write), or an Array.
\<close>

datatype unprocessed =
  Absent
  | ObjectMap "(jsstring \<times> recipient list) list"
  | ItemArray "recipient list"

datatype save_result = SaveResolved unprocessed | SaveRejected js_error

datatype invoke_result = InvokeData int | InvokeError js_error

datatype fetch_result = GetObjectData jsstring jsstring | GetObjectError js_error

text \<open>
  The answers of the outside world. \<open>saveAll\<close> and \<open>getRemainingTimeInMillis\<close> are
  indexed by the number of the chunk, \<open>getTime\<close> by the number of the row.
  \<open>JSON_parse\<close> gives \<open>None\<close> where \<open>JSON.parse\<close> throws. \<open>encode\<close> is
  \<open>base64url.encode\<close>, \<open>subscribed\<close> is \<open>Recipient.statuses.subscribed\<close>,
  \<open>unescape\<close> is \<open>querystring.unescape\<close>, \<open>fromString\<close> is the rows that
  \<open>csv.fromString\<close> emits before its end.
\<close>

record env =
  saveAll :: "nat \<Rightarrow> recipient list \<Rightarrow> save_result"
  getRemainingTimeInMillis :: "nat \<Rightarrow> int"
  invoke :: "jsstring \<Rightarrow> payload \<Rightarrow> invoke_result"
  getObject :: "jsstring \<Rightarrow> jsstring \<Rightarrow> fetch_result"
  JSON_parse :: "jsstring \<Rightarrow> (jsstring \<times> jsstring) list option"
  fromString :: "jsstring \<Rightarrow> row list"
  encode :: "jsstring option \<Rightarrow> jsstring"
  unescape :: "jsstring \<Rightarrow> jsstring"
  subscribed :: jsstring
  dateToString :: jsstring
  getTime :: "nat \<Rightarrow> int"

text \<open>The fields of \<open>this\<close> (the clients and the context are in the environment).\<close>

record service =
  s3Event :: s3Event
  importOffset :: int
  bucket :: jsstring
  fileKey :: jsstring
  userId :: "jsstring option"
  listId :: "jsstring option"
  fileExt :: "jsstring option"
  corruptedEmails :: "jsstring option list"
  recipients :: "recipient list"
  totalRecipientsCount :: nat
  lambdaName :: jsstring
  headerMapping :: "(jsstring \<times> jsstring) list option"

subsection \<open>Promises and effects\<close>

datatype jsvalue =
  Undefined
  | Report report
  | Data int
  | Error js_error
  | Message jsstring
  | Recipients "recipient list"

text \<open>\<open>Pending\<close> is a promise that nothing settles any more.\<close>

datatype settlement = Fulfilled jsvalue | Rejected jsvalue | Pending

text \<open>What a method returns: nothing, or a promise.\<close>

datatype ret = ReturnsUndefined | ReturnsPromise settlement

text \<open>
  The calls to the outside world, in order. \<open>Dropped p\<close> is a promise that a statement
  creates and nobody holds: \<open>Promise.resolve(x);\<close> and \<open>Promise.reject(x);\<close> as
  statements of their own.
\<close>

datatype event =
  GetObject jsstring jsstring
  | FromString jsstring
  | SaveAll "recipient list"
  | Invoke jsstring payload
  | Dropped settlement

text \<open>A \<open>then\<close> callback that returns \<open>x\<close> settles its promise as \<open>x\<close> does.\<close>

definition adopt :: "ret \<Rightarrow> settlement" where
  "adopt r = (case r of ReturnsUndefined \<Rightarrow> Fulfilled Undefined | ReturnsPromise p \<Rightarrow> p)"

text \<open>\<open>err.message\<close> and \<open>err.stack\<close> of a rejection value.\<close>

definition message_of :: "jsvalue \<Rightarrow> jsstring option" where
  "message_of v = (case v of Error e \<Rightarrow> Some (err_message e) | Report r \<Rightarrow> rep_message r | _ \<Rightarrow> None)"

definition stack_of :: "jsvalue \<Rightarrow> jsstring option" where
  "stack_of v = (case v of Error e \<Rightarrow> Some (err_stack e) | _ \<Rightarrow> None)"

subsection \<open>The methods\<close>

definition constructor :: "env \<Rightarrow> s3Event \<Rightarrow> int option \<Rightarrow> jsstring \<Rightarrow> service" where
  "constructor e ev offset functionName =
     (let key = unescape e (object_key ev);
          file = split_str full_stop key
      in \<lparr> s3Event = ev,
           importOffset = (case offset of None \<Rightarrow> 0 | Some n \<Rightarrow> n),
           bucket = bucket_name ev,
           fileKey = key,
           userId = index file 0,
           listId = index file 1,
           fileExt = index file (length file - 1),
           corruptedEmails = [],
           recipients = [],
           totalRecipientsCount = 0,
           lambdaName = functionName,
           headerMapping = None \<rparr>)"

definition executionThreshold :: int where
  "executionThreshold = 60000"

definition maxBatchSize :: int where
  "maxBatchSize = 25"

definition timeEnough :: "env \<Rightarrow> nat \<Rightarrow> bool" where
  "timeEnough e k = (getRemainingTimeInMillis e k > executionThreshold)"

definition filterByEmail :: "service \<Rightarrow> recipient \<Rightarrow> bool \<times> service" where
  "filterByEmail s recipient =
     (let email = rcp_email recipient
      in if test email_pattern (ToString email) then (True, s)
         else (False, s\<lparr>corruptedEmails := corruptedEmails s @ [email]\<rparr>))"

text \<open>\<open>recipients.filter(this.filterByEmail.bind(this))\<close>: the callback runs on each
  element in order and changes \<open>this\<close>.\<close>

fun filter_arr :: "service \<Rightarrow> recipient list \<Rightarrow> recipient list \<times> service" where
  "filter_arr s [] = ([], s)"
| "filter_arr s (r # rs) =
     (let (keep, s1) = filterByEmail s r;
          (kept, s2) = filter_arr s1 rs
      in (if keep then r # kept else kept, s2))"

text \<open>The loop \<open>for (let key in headerMapping)\<close> of the row handler.\<close>

fun remap :: "(jsstring \<times> jsstring) list \<Rightarrow> row \<Rightarrow> (jsstring \<rightharpoonup> jsstring option) \<Rightarrow> (jsstring \<rightharpoonup> jsstring option)" where
  "remap [] data metadata = metadata"
| "remap ((key, newKey) # rest) data metadata = remap rest data (metadata(newKey \<mapsto> data key))"

definition newRecp :: "env \<Rightarrow> service \<Rightarrow> nat \<Rightarrow> row \<Rightarrow> recipient" where
  "newRecp e s i data =
     \<lparr> rcp_id = encode e (data (ascii ''email'')),
       rcp_userId = userId s,
       rcp_listId = listId s,
       rcp_email = data (ascii ''email''),
       rcp_metadata = remap (case headerMapping s of None \<Rightarrow> [] | Some m \<Rightarrow> m) data Map.empty,
       rcp_status = subscribed e,
       rcp_isConfirmed = True,
       rcp_createdAt = getTime e i \<rparr>"

definition parseCSV :: "env \<Rightarrow> service \<Rightarrow> jsstring \<Rightarrow> recipient list" where
  "parseCSV e s csvString =
     (let rows = fromString e csvString
      in map (\<lambda>(i, data). newRecp e s i data) (zip [0 ..< length rows] rows))"

definition parseFile :: "env \<Rightarrow> service \<Rightarrow> service \<times> event list \<times> settlement" where
  "parseFile e s =
     (case getObject e (bucket s) (fileKey s) of
        GetObjectError err \<Rightarrow> (s, [GetObject (bucket s) (fileKey s)], Rejected (Error err))
      | GetObjectData metadata body \<Rightarrow>
          if fileExt s = Some (ascii ''csv'') then
            (case JSON_parse e metadata of
               None \<Rightarrow> (s, [GetObject (bucket s) (fileKey s)], Pending)
             | Some m \<Rightarrow>
                 (let s1 = s\<lparr>headerMapping := Some m\<rparr>
                  in (s1, [GetObject (bucket s) (fileKey s), FromString body],
                      Fulfilled (Recipients (parseCSV e s1 body)))))
          else (s, [GetObject (bucket s) (fileKey s)],
                Rejected (Message (ToString (fileExt s) @ ascii '' is not supported''))))"

definition successStatus :: "env \<Rightarrow> service \<Rightarrow> report" where
  "successStatus e s =
     \<lparr> rep_listId = listId s,
       rep_userId = userId s,
       rep_totalRecipientsCount = totalRecipientsCount s,
       rep_corruptedEmailsCount = length (corruptedEmails s),
       rep_corruptedEmails = corruptedEmails s,
       rep_importedCount = importOffset s,
       rep_importStatus = SUCCESS,
       rep_updatedAt = dateToString e,
       rep_message = None,
       rep_stackTrace = None \<rparr>"

definition failedStatus :: "env \<Rightarrow> service \<Rightarrow> jsvalue \<Rightarrow> report" where
  "failedStatus e s err =
     \<lparr> rep_listId = listId s,
       rep_userId = userId s,
       rep_totalRecipientsCount = totalRecipientsCount s,
       rep_corruptedEmailsCount = length (corruptedEmails s),
       rep_corruptedEmails = corruptedEmails s,
       rep_importedCount = importOffset s,
       rep_importStatus = FAILED,
       rep_updatedAt = dateToString e,
       rep_message = message_of err,
       rep_stackTrace = stack_of err \<rparr>"

text \<open>
  The handler of \<open>.catch\<close> in \<open>saveRecipients\<close>, applied to the promise of the
  \<open>.then\<close> before it. It builds the FAILED object, hands it to \<open>Promise.reject\<close> in a
  statement without \<open>return\<close>, and so returns \<open>undefined\<close>.
\<close>

definition catch_save :: "env \<Rightarrow> service \<Rightarrow> settlement \<Rightarrow> event list \<times> settlement" where
  "catch_save e s p =
     (case p of
        Rejected err \<Rightarrow> ([Dropped (Rejected (Report (failedStatus e s err)))], Fulfilled Undefined)
      | _ \<Rightarrow> ([], p))"

definition invokeLambda :: "env \<Rightarrow> service \<Rightarrow> event list \<times> settlement" where
  "invokeLambda e s =
     (let payload = \<lparr> pl_s3 = s3Event s, pl_importOffset = importOffset s \<rparr>
      in ([Invoke (lambdaName s) payload],
          (case invoke e (lambdaName s) payload of
             InvokeError err \<Rightarrow> Rejected (Error err)
           | InvokeData data \<Rightarrow> Fulfilled (Data data))))"

text \<open>
  \<open>saveRecipients\<close> calls itself from the callback of each chunk. The first argument
  bounds the number of chunks of one run: with none left the result is \<open>None\<close>, and the
  calls made so far are still returned. The third argument numbers the chunk.
\<close>

fun saveRecipients :: "nat \<Rightarrow> env \<Rightarrow> nat \<Rightarrow> service \<Rightarrow> service \<times> event list \<times> ret option" where
  "saveRecipients 0 e k s = (s, [], None)"
| "saveRecipients (Suc n) e k s =
     (if importOffset s < int (length (recipients s)) then
        (let recipientsBatch =
               slice_arr (recipients s) (importOffset s) (importOffset s + maxBatchSize)
         in case saveAll e k recipientsBatch of
              SaveRejected err \<Rightarrow>
                (let (tr, p) = catch_save e s (Rejected (Error err))
                 in (s, SaveAll recipientsBatch # tr, Some (ReturnsPromise p)))
            | SaveResolved data \<Rightarrow>
                if timeEnough e k then
                  (let s1 = (case data of
                               ItemArray items \<Rightarrow>
                                 s\<lparr>importOffset := importOffset s + (maxBatchSize - int (length items))\<rparr>
                             | _ \<Rightarrow>
                                 s\<lparr>importOffset := importOffset s
                                      + min maxBatchSize (int (length recipientsBatch))\<rparr>);
                       (s2, tr, r) = saveRecipients n e (Suc k) s1
                   in case r of
                        None \<Rightarrow> (s2, SaveAll recipientsBatch # tr, None)
                      | Some x \<Rightarrow>
                          (let (tr2, p) = catch_save e s2 (adopt x)
                           in (s2, SaveAll recipientsBatch # tr @ tr2, Some (ReturnsPromise p))))
                else
                  (let s1 = (case data of
                               ItemArray items \<Rightarrow>
                                 s\<lparr>importOffset := importOffset s + (maxBatchSize - int (length items))\<rparr>
                             | _ \<Rightarrow>
                                 s\<lparr>importOffset := importOffset s
                                      + min maxBatchSize (int (length recipientsBatch))\<rparr>);
                       (tr1, p1) = invokeLambda e s1;
                       (tr2, p) = catch_save e s1 p1
                   in (s1, SaveAll recipientsBatch # tr1 @ tr2, Some (ReturnsPromise p))))
      else (s, [Dropped (Fulfilled (Report (successStatus e s)))], Some ReturnsUndefined))"

text \<open>
  \<open>importAll\<close>: a rejection of \<open>parseFile\<close> passes through the \<open>then\<close>; otherwise
  the callback counts the rows, filters them and returns what \<open>saveRecipients\<close> returns.
\<close>

definition importAll :: "nat \<Rightarrow> env \<Rightarrow> service \<Rightarrow> service \<times> event list \<times> settlement option" where
  "importAll n e s =
     (let (s1, tr1, p) = parseFile e s
      in case p of
           Fulfilled (Recipients rs) \<Rightarrow>
             (let s2 = s1\<lparr>totalRecipientsCount := length rs\<rparr>;
                  (kept, s3) = filter_arr s2 rs;
                  s4 = s3\<lparr>recipients := kept\<rparr>;
                  (s5, tr2, r) = saveRecipients n e 0 s4
              in (s5, tr1 @ tr2, map_option adopt r))
         | _ \<Rightarrow> (s1, tr1, Some p))"

subsection \<open>Properties as predicates\<close>

text \<open>
  What the pattern accepts: somewhere in the string, three non-empty runs free of
  whitespace, the first two separated by \<open>@\<close> and the last two by a full stop.
\<close>

definition email_shape :: "jsstring \<Rightarrow> bool" where
  "email_shape s \<longleftrightarrow>
     (\<exists>pre a b c suf. s = pre @ a @ [at_sign] @ b @ [full_stop] @ c @ suf
        \<and> a \<noteq> [] \<and> b \<noteq> [] \<and> c \<noteq> []
        \<and> list_all (\<lambda>x. \<not> is_space x) (a @ b @ c))"

text \<open>
  The shape as the specification words it: the whole string is
  \<open><non-empty>@<non-empty>.<non-empty>\<close> and holds no whitespace.
\<close>

definition spec_email_shape :: "jsstring \<Rightarrow> bool" where
  "spec_email_shape s \<longleftrightarrow>
     list_all (\<lambda>x. \<not> is_space x) s
     \<and> (\<exists>a b c. s = a @ [at_sign] @ b @ [full_stop] @ c \<and> a \<noteq> [] \<and> b \<noteq> [] \<and> c \<noteq> [])"

text \<open>
  The slice that one call of \<open>saveRecipients\<close> submits (its \<open>recipientsBatch\<close>), and
  the state after the offset update that both branches of its callback make.
\<close>

definition batch_of :: "service \<Rightarrow> recipient list" where
  "batch_of s = slice_arr (recipients s) (importOffset s) (importOffset s + maxBatchSize)"

definition advanced :: "service \<Rightarrow> unprocessed \<Rightarrow> service" where
  "advanced s d =
     (case d of
        ItemArray items \<Rightarrow> s\<lparr>importOffset := importOffset s + (maxBatchSize - int (length items))\<rparr>
      | _ \<Rightarrow> s\<lparr>importOffset := importOffset s + min maxBatchSize (int (length (batch_of s)))\<rparr>)"

subsection \<open>Concrete inputs\<close>

definition sample_event :: s3Event where
  "sample_event = \<lparr> bucket_name = ascii ''uploads'', object_key = ascii ''u1.l1.csv'' \<rparr>"

definition row_of :: "string \<Rightarrow> row" where
  "row_of email = [ascii ''email'' \<mapsto> ascii email]"

definition sample_env :: env where
  "sample_env =
     \<lparr> saveAll = (\<lambda>k batch. SaveResolved Absent),
       getRemainingTimeInMillis = (\<lambda>k. 300000),
       invoke = (\<lambda>name p. InvokeData 202),
       getObject = (\<lambda>b k. GetObjectData (ascii ''{}'') (ascii ''email'')),
       JSON_parse = (\<lambda>m. Some []),
       fromString = (\<lambda>body. [row_of ''a@b.com'', row_of ''not-an-email'', row_of ''c@d.com'']),
       encode = ToString,
       unescape = (\<lambda>key. key),
       subscribed = ascii ''subscribed'',
       dateToString = ascii ''Tue Nov 03 2026'',
       getTime = (\<lambda>i. 1000 + int i) \<rparr>"

definition sample_service :: service where
  "sample_service = constructor sample_env sample_event None (ascii ''importRecipients'')"

definition spaced_recipient :: recipient where
  "spaced_recipient = newRecp sample_env sample_service 0 (row_of ''a b@c.d'')"

definition sample_error :: js_error where
  "sample_error = \<lparr> err_message = ascii ''throttled'', err_stack = ascii ''at saveAll'' \<rparr>"

definition sample_recipient :: "string \<Rightarrow> nat \<Rightarrow> recipient" where
  "sample_recipient email i =
     newRecp sample_env (sample_service\<lparr>headerMapping := Some []\<rparr>) i (row_of email)"

definition parsed_service :: service where
  "parsed_service = sample_service\<lparr>headerMapping := Some []\<rparr>"

definition loaded_service :: service where
  "loaded_service =
     parsed_service
       \<lparr>totalRecipientsCount := 3,
        corruptedEmails := [Some (ascii ''not-an-email'')],
        recipients := [sample_recipient ''a@b.com'' 0, sample_recipient ''c@d.com'' 2]\<rparr>"

definition empty_env :: env where
  "empty_env = sample_env\<lparr>fromString := (\<lambda>body. [])\<rparr>"

definition failing_env :: env where
  "failing_env = sample_env\<lparr>saveAll := (\<lambda>k batch. SaveRejected sample_error)\<rparr>"

definition partial_env :: env where
  "partial_env =
     sample_env
       \<lparr>fromString := (\<lambda>body. [row_of ''a@b.com'', row_of ''c@d.com'', row_of ''e@f.com'']),
        saveAll := (\<lambda>k batch. SaveResolved (ItemArray (take 1 batch)))\<rparr>"

definition stalled_env :: env where
  "stalled_env =
     sample_env\<lparr>getRemainingTimeInMillis := (\<lambda>k. 1000),
                invoke := (\<lambda>name p. InvokeError sample_error)\<rparr>"

definition halting_env :: env where
  "halting_env = sample_env\<lparr>getRemainingTimeInMillis := (\<lambda>k. 1000)\<rparr>"

definition xls_service :: service where
  "xls_service =
     constructor sample_env
       \<lparr> bucket_name = ascii ''uploads'', object_key = ascii ''u1.l1.xls'' \<rparr>
       None (ascii ''importRecipients'')"

definition objmap_env :: env where
  "objmap_env =
     sample_env\<lparr>saveAll :=
       (\<lambda>k batch. SaveResolved (ObjectMap [(ascii ''recipients'', take 1 batch)]))\<rparr>"

definition offline_env :: env where
  "offline_env = sample_env\<lparr>getObject := (\<lambda>b k. GetObjectError sample_error)\<rparr>"

section \<open>Properties\<close>

subsection \<open>The pattern\<close>

lemma match_here_Lit:
  "match_here (Lit c # r) s \<longleftrightarrow> (\<exists>rest. s = c # rest \<and> match_here r rest)"
  by (cases s) auto

lemma match_here_NonSpacePlus:
  "match_here (NonSpacePlus # r) s \<longleftrightarrow>
     (\<exists>a rest. a \<noteq> [] \<and> (\<forall>x\<in>set a. \<not> is_space x) \<and> s = a @ rest \<and> match_here r rest)"
proof (induction s)
  case Nil
  then show ?case by simp
next
  case (Cons x xs)
  show ?case
  proof
    assume m: "match_here (NonSpacePlus # r) (x # xs)"
    then have nx: "\<not> is_space x" by simp
    from m have "match_here r xs \<or> match_here (NonSpacePlus # r) xs" by simp
    then show "\<exists>a rest. a \<noteq> [] \<and> (\<forall>x\<in>set a. \<not> is_space x) \<and> x # xs = a @ rest \<and> match_here r rest"
    proof
      assume "match_here r xs"
      with nx have "[x] \<noteq> [] \<and> (\<forall>y\<in>set [x]. \<not> is_space y) \<and> x # xs = [x] @ xs \<and> match_here r xs"
        by simp
      then show ?thesis by blast
    next
      assume "match_here (NonSpacePlus # r) xs"
      with Cons.IH obtain a rest where
        a: "a \<noteq> []" "\<forall>y\<in>set a. \<not> is_space y" "xs = a @ rest" "match_here r rest"
        by blast
      with nx have "x # a \<noteq> [] \<and> (\<forall>y\<in>set (x # a). \<not> is_space y) \<and> x # xs = (x # a) @ rest \<and> match_here r rest"
        by simp
      then show ?thesis by blast
    qed
  next
    assume "\<exists>a rest. a \<noteq> [] \<and> (\<forall>x\<in>set a. \<not> is_space x) \<and> x # xs = a @ rest \<and> match_here r rest"
    then obtain a rest where
      a: "a \<noteq> []" "\<forall>y\<in>set a. \<not> is_space y" "x # xs = a @ rest" "match_here r rest"
      by blast
    from a(1) obtain y ys where ay: "a = y # ys" by (cases a) auto
    with a(3) have xy: "x = y" "xs = ys @ rest" by auto
    from ay a(2) xy have nx: "\<not> is_space x" and nys: "\<forall>z\<in>set ys. \<not> is_space z" by auto
    show "match_here (NonSpacePlus # r) (x # xs)"
    proof (cases "ys = []")
      case True
      with xy a(4) nx show ?thesis by simp
    next
      case False
      with nys xy a(4) have "match_here (NonSpacePlus # r) xs"
        using Cons.IH by blast
      with nx show ?thesis by simp
    qed
  qed
qed

lemma test_iff:
  "test p s \<longleftrightarrow> (\<exists>pre suf. s = pre @ suf \<and> match_here p suf)"
proof (induction s)
  case Nil
  then show ?case by simp
next
  case (Cons x xs)
  show ?case
  proof
    assume "test p (x # xs)"
    then have "match_here p (x # xs) \<or> test p xs" by simp
    then show "\<exists>pre suf. x # xs = pre @ suf \<and> match_here p suf"
    proof
      assume "match_here p (x # xs)"
      then have "x # xs = [] @ (x # xs) \<and> match_here p (x # xs)" by simp
      then show ?thesis by blast
    next
      assume "test p xs"
      with Cons.IH obtain pre suf where "xs = pre @ suf" "match_here p suf" by blast
      then have "x # xs = (x # pre) @ suf \<and> match_here p suf" by simp
      then show ?thesis by blast
    qed
  next
    assume "\<exists>pre suf. x # xs = pre @ suf \<and> match_here p suf"
    then obtain pre suf where ps: "x # xs = pre @ suf" "match_here p suf" by blast
    show "test p (x # xs)"
    proof (cases pre)
      case Nil
      with ps have "suf = x # xs" by simp
      with ps(2) have "match_here p (x # xs)" by simp
      then show ?thesis by simp
    next
      case (Cons y ys)
      with ps have "xs = ys @ suf" by simp
      with ps(2) Cons.IH have "test p xs" by blast
      then show ?thesis by simp
    qed
  qed
qed

lemma test_email_pattern:
  "test email_pattern s \<longleftrightarrow> email_shape s"
proof
  assume "test email_pattern s"
  then obtain pre s1 where s: "s = pre @ s1" and m1: "match_here email_pattern s1"
    unfolding test_iff by blast
  from m1 obtain a s2 where a: "a \<noteq> []" "\<forall>x\<in>set a. \<not> is_space x" "s1 = a @ s2"
    and m2: "match_here [Lit at_sign, NonSpacePlus, Lit full_stop, NonSpacePlus] s2"
    unfolding email_pattern_def match_here_NonSpacePlus by blast
  from m2 obtain s3 where s2: "s2 = at_sign # s3"
    and m3: "match_here [NonSpacePlus, Lit full_stop, NonSpacePlus] s3"
    unfolding match_here_Lit by blast
  from m3 obtain b s4 where b: "b \<noteq> []" "\<forall>x\<in>set b. \<not> is_space x" "s3 = b @ s4"
    and m4: "match_here [Lit full_stop, NonSpacePlus] s4"
    unfolding match_here_NonSpacePlus by blast
  from m4 obtain s5 where s4: "s4 = full_stop # s5" and m5: "match_here [NonSpacePlus] s5"
    unfolding match_here_Lit by blast
  from m5 obtain c suf where c: "c \<noteq> []" "\<forall>x\<in>set c. \<not> is_space x" "s5 = c @ suf"
    unfolding match_here_NonSpacePlus by blast
  have "s = pre @ a @ [at_sign] @ b @ [full_stop] @ c @ suf"
    using s a(3) s2 b(3) s4 c(3) by simp
  moreover have "list_all (\<lambda>x. \<not> is_space x) (a @ b @ c)"
    using a(2) b(2) c(2) by (auto simp: list_all_iff)
  ultimately show "email_shape s"
    unfolding email_shape_def using a(1) b(1) c(1) by blast
next
  assume "email_shape s"
  then obtain pre a b c suf where s: "s = pre @ a @ [at_sign] @ b @ [full_stop] @ c @ suf"
    and ne: "a \<noteq> []" "b \<noteq> []" "c \<noteq> []"
    and ns: "list_all (\<lambda>x. \<not> is_space x) (a @ b @ c)"
    unfolding email_shape_def by blast
  from ns have na: "\<forall>x\<in>set a. \<not> is_space x" and nb: "\<forall>x\<in>set b. \<not> is_space x"
    and nc: "\<forall>x\<in>set c. \<not> is_space x"
    by (simp_all add: list_all_iff)
  have m5: "match_here [NonSpacePlus] (c @ suf)"
    unfolding match_here_NonSpacePlus using ne(3) nc by auto
  then have m4: "match_here [Lit full_stop, NonSpacePlus] (full_stop # c @ suf)"
    by simp
  have m3: "match_here [NonSpacePlus, Lit full_stop, NonSpacePlus] (b @ full_stop # c @ suf)"
    unfolding match_here_NonSpacePlus [of "[Lit full_stop, NonSpacePlus]"]
    using ne(2) nb m4 by blast
  then have m2: "match_here [Lit at_sign, NonSpacePlus, Lit full_stop, NonSpacePlus]
      (at_sign # b @ full_stop # c @ suf)"
    by simp
  have m1: "match_here email_pattern (a @ at_sign # b @ full_stop # c @ suf)"
    unfolding email_pattern_def
      match_here_NonSpacePlus [of "[Lit at_sign, NonSpacePlus, Lit full_stop, NonSpacePlus]"]
    using ne(1) na m2 by blast
  have "s = pre @ (a @ at_sign # b @ full_stop # c @ suf)"
    using s by simp
  with m1 show "test email_pattern s"
    unfolding test_iff by blast
qed

subsection \<open>The validation filter\<close>

lemma sample_service_eval:
  "sample_service =
     \<lparr> s3Event = sample_event, importOffset = 0, bucket = ascii ''uploads'',
       fileKey = ascii ''u1.l1.csv'', userId = Some (ascii ''u1''), listId = Some (ascii ''l1''),
       fileExt = Some (ascii ''csv''), corruptedEmails = [], recipients = [],
       totalRecipientsCount = 0, lambdaName = ascii ''importRecipients'', headerMapping = None \<rparr>"
  by (simp add: sample_service_def constructor_def sample_env_def sample_event_def ascii_def
      full_stop_def index_def Let_def)

lemma spaced_recipient_accepted:
  "fst (filterByEmail sample_service spaced_recipient)"
  by (simp add: filterByEmail_def spaced_recipient_def newRecp_def row_of_def ToString_def
      email_pattern_def ascii_def at_sign_def full_stop_def is_space_def)

text \<open>
  Claim C4, as stated, fails: the pattern is not anchored, so the email \<open>a b@c.d\<close>,
  which holds a space, is accepted.
\<close>

theorem filterByEmail_counterexample:
  "fst (filterByEmail sample_service spaced_recipient)
   \<and> \<not> spec_email_shape (ToString (rcp_email spaced_recipient))"
  by (simp add: filterByEmail_def spaced_recipient_def newRecp_def row_of_def ToString_def
      spec_email_shape_def email_pattern_def ascii_def at_sign_def full_stop_def is_space_def)

text \<open>
  Claim C4, amended: the filter accepts a candidate if and only if its email, read as a
  string, contains somewhere three non-empty runs free of whitespace joined as
  \<open>run@run.run\<close>; whitespace elsewhere in the string does not reject it. A rejected
  candidate's email is appended to the corrupted-email list, and an accepted one leaves
  the list as it is.
\<close>

theorem filterByEmail_shape:
  "fst (filterByEmail s r) = email_shape (ToString (rcp_email r))
   \<and> corruptedEmails (snd (filterByEmail s r)) =
       (if fst (filterByEmail s r) then corruptedEmails s else corruptedEmails s @ [rcp_email r])"
  by (simp add: filterByEmail_def Let_def test_email_pattern)

text \<open>Claim C4, amended, at the email \<open>a b@c.d\<close>.\<close>

theorem filterByEmail_shape_witness:
  "email_shape (ToString (rcp_email spaced_recipient))
   \<and> corruptedEmails (snd (filterByEmail sample_service spaced_recipient)) = []"
  using filterByEmail_shape [of sample_service spaced_recipient] spaced_recipient_accepted
  by (simp add: sample_service_eval)

subsection \<open>One call of saveRecipients\<close>

lemma length_slice_arr:
  "0 \<le> n \<Longrightarrow> length (slice_arr xs a (a + n)) \<le> nat n"
  by (auto simp: slice_arr_def Let_def min_def max_def)

lemma length_slice_arr_inside:
  "0 \<le> a \<Longrightarrow> a < int (length xs) \<Longrightarrow> 0 \<le> n \<Longrightarrow>
   int (length (slice_arr xs a (a + n))) = min n (int (length xs) - a)"
  by (auto simp: slice_arr_def Let_def min_def max_def)

lemma length_batch_of:
  "length (batch_of s) \<le> 25"
  using length_slice_arr [where xs = "recipients s" and a = "importOffset s" and n = 25]
  by (simp add: batch_of_def maxBatchSize_def)

lemma saveRecipients_done:
  "\<not> importOffset s < int (length (recipients s)) \<Longrightarrow>
   saveRecipients (Suc n) e k s =
     (s, [Dropped (Fulfilled (Report (successStatus e s)))], Some ReturnsUndefined)"
  by simp

lemma saveRecipients_rejected:
  "importOffset s < int (length (recipients s)) \<Longrightarrow>
   saveAll e k (batch_of s) = SaveRejected err \<Longrightarrow>
   saveRecipients (Suc n) e k s =
     (s, [SaveAll (batch_of s), Dropped (Rejected (Report (failedStatus e s (Error err))))],
      Some (ReturnsPromise (Fulfilled Undefined)))"
  by (simp add: batch_of_def catch_save_def Let_def)

lemma saveRecipients_halt:
  "importOffset s < int (length (recipients s)) \<Longrightarrow>
   saveAll e k (batch_of s) = SaveResolved d \<Longrightarrow>
   \<not> timeEnough e k \<Longrightarrow>
   saveRecipients (Suc n) e k s =
     (advanced s d,
      SaveAll (batch_of s) # fst (invokeLambda e (advanced s d))
        @ fst (catch_save e (advanced s d) (snd (invokeLambda e (advanced s d)))),
      Some (ReturnsPromise (snd (catch_save e (advanced s d) (snd (invokeLambda e (advanced s d)))))))"
  by (cases d) (simp_all add: batch_of_def advanced_def Let_def split: prod.splits)

lemma saveRecipients_continue:
  "importOffset s < int (length (recipients s)) \<Longrightarrow>
   saveAll e k (batch_of s) = SaveResolved d \<Longrightarrow>
   timeEnough e k \<Longrightarrow>
   saveRecipients n e (Suc k) (advanced s d) = (s2, tr, r) \<Longrightarrow>
   saveRecipients (Suc n) e k s =
     (s2,
      SaveAll (batch_of s) # tr @ (case r of None \<Rightarrow> [] | Some x \<Rightarrow> fst (catch_save e s2 (adopt x))),
      (case r of None \<Rightarrow> None | Some x \<Rightarrow> Some (ReturnsPromise (snd (catch_save e s2 (adopt x))))))"
  by (cases d; cases r) (simp_all add: batch_of_def advanced_def Let_def split: prod.splits)

lemma invokeLambda_trace:
  "fst (invokeLambda e s) =
     [Invoke (lambdaName s) \<lparr> pl_s3 = s3Event s, pl_importOffset = importOffset s \<rparr>]"
  by (simp add: invokeLambda_def Let_def)

lemma invokeLambda_result:
  "snd (invokeLambda e s) =
     (case invoke e (lambdaName s) \<lparr> pl_s3 = s3Event s, pl_importOffset = importOffset s \<rparr> of
        InvokeError err \<Rightarrow> Rejected (Error err)
      | InvokeData d \<Rightarrow> Fulfilled (Data d))"
  by (simp add: invokeLambda_def Let_def)

lemma catch_save_trace:
  "x \<in> set (fst (catch_save e s p)) \<Longrightarrow> \<exists>err. x = Dropped (Rejected (Report (failedStatus e s err)))"
  by (cases p) (auto simp: catch_save_def)

lemma catch_save_Fulfilled:
  "catch_save e s (Fulfilled v) = ([], Fulfilled v)"
  by (simp add: catch_save_def)

lemma advanced_fields:
  "recipients (advanced s d) = recipients s"
  "corruptedEmails (advanced s d) = corruptedEmails s"
  "totalRecipientsCount (advanced s d) = totalRecipientsCount s"
  "s3Event (advanced s d) = s3Event s"
  "lambdaName (advanced s d) = lambdaName s"
  by (cases d; simp add: advanced_def)+

lemma saveRecipients_unfold:
  "saveRecipients (Suc m) e k s =
     (if importOffset s < int (length (recipients s)) then
        (case saveAll e k (batch_of s) of
           SaveRejected err \<Rightarrow>
             (s, [SaveAll (batch_of s), Dropped (Rejected (Report (failedStatus e s (Error err))))],
              Some (ReturnsPromise (Fulfilled Undefined)))
         | SaveResolved d \<Rightarrow>
             if timeEnough e k then
               (case saveRecipients m e (Suc k) (advanced s d) of (s2, tr, r) \<Rightarrow>
                  (s2,
                   SaveAll (batch_of s) # tr
                     @ (case r of None \<Rightarrow> [] | Some x \<Rightarrow> fst (catch_save e s2 (adopt x))),
                   (case r of None \<Rightarrow> None
                    | Some x \<Rightarrow> Some (ReturnsPromise (snd (catch_save e s2 (adopt x)))))))
             else
               (advanced s d,
                SaveAll (batch_of s) # fst (invokeLambda e (advanced s d))
                  @ fst (catch_save e (advanced s d) (snd (invokeLambda e (advanced s d)))),
                Some (ReturnsPromise
                  (snd (catch_save e (advanced s d) (snd (invokeLambda e (advanced s d))))))))
      else (s, [Dropped (Fulfilled (Report (successStatus e s)))], Some ReturnsUndefined))"
proof (cases "importOffset s < int (length (recipients s))")
  case False
  then show ?thesis by (simp only: saveRecipients_done [OF False] False if_False)
next
  case True
  show ?thesis
  proof (cases "saveAll e k (batch_of s)")
    case (SaveRejected err)
    with True show ?thesis
      by (simp only: saveRecipients_rejected [OF True SaveRejected] True if_True
          SaveRejected save_result.case)
  next
    case (SaveResolved d)
    show ?thesis
    proof (cases "timeEnough e k")
      case False
      with True SaveResolved show ?thesis
        by (simp only: saveRecipients_halt [OF True SaveResolved False] True False if_True
            if_False SaveResolved save_result.case)
    next
      case te: True
      obtain s2 tr r where c: "saveRecipients m e (Suc k) (advanced s d) = (s2, tr, r)"
        by (cases "saveRecipients m e (Suc k) (advanced s d)") auto
      from True SaveResolved te c show ?thesis
        by (simp only: saveRecipients_continue [OF True SaveResolved te c] True te c if_True
            SaveResolved save_result.case prod.case)
    qed
  qed
qed

declare saveRecipients.simps(2) [simp del]

lemma saveRecipients_fields:
  "saveRecipients n e k s = (s', tr, r) \<Longrightarrow>
   recipients s' = recipients s \<and> corruptedEmails s' = corruptedEmails s
   \<and> totalRecipientsCount s' = totalRecipientsCount s
   \<and> s3Event s' = s3Event s \<and> lambdaName s' = lambdaName s"
proof (induction n arbitrary: k s s' tr r)
  case 0
  then show ?case by simp
next
  case (Suc m)
  from Suc.prems Suc.IH show ?case
    unfolding saveRecipients_unfold
    by (auto simp: advanced_fields split: if_splits save_result.splits prod.splits)
qed

lemma saveRecipients_chunks:
  "saveRecipients n e k s = (s', tr, r) \<Longrightarrow> SaveAll b \<in> set tr \<Longrightarrow> length b \<le> 25"
proof (induction n arbitrary: k s s' tr r)
  case 0
  then show ?case by simp
next
  case (Suc m)
  from Suc.prems Suc.IH show ?case
    unfolding saveRecipients_unfold
    by (auto simp: length_batch_of invokeLambda_trace
        split: if_splits save_result.splits prod.splits option.splits
        dest!: catch_save_trace)
qed

lemma saveRecipients_redispatch:
  "saveRecipients n e k s = (s', tr, r) \<Longrightarrow> Invoke nm pl \<in> set tr \<Longrightarrow>
   nm = lambdaName s \<and> pl = \<lparr> pl_s3 = s3Event s, pl_importOffset = importOffset s' \<rparr>
   \<and> (\<forall>ack. invoke e nm pl = InvokeData ack \<longrightarrow>
          r = Some (ReturnsPromise (Fulfilled (Data ack))) \<and> (\<forall>p. Dropped p \<notin> set tr))"
proof (induction n arbitrary: k s s' tr r)
  case 0
  then show ?case by simp
next
  case (Suc m)
  show ?case
  proof (cases "importOffset s < int (length (recipients s))")
    case False
    with Suc.prems show ?thesis by (auto simp: saveRecipients_unfold)
  next
    case True
    show ?thesis
    proof (cases "saveAll e k (batch_of s)")
      case (SaveRejected err)
      with True Suc.prems show ?thesis by (auto simp: saveRecipients_unfold)
    next
      case (SaveResolved d)
      show ?thesis
      proof (cases "timeEnough e k")
        case False
        let ?s1 = "advanced s d"
        let ?pl = "\<lparr> pl_s3 = s3Event ?s1, pl_importOffset = importOffset ?s1 \<rparr>"
        from Suc.prems(1) True SaveResolved False
        have s': "s' = ?s1"
          and tr: "tr = SaveAll (batch_of s) # fst (invokeLambda e ?s1)
                     @ fst (catch_save e ?s1 (snd (invokeLambda e ?s1)))"
          and r: "r = Some (ReturnsPromise (snd (catch_save e ?s1 (snd (invokeLambda e ?s1)))))"
          by (auto simp: saveRecipients_unfold)
        from tr Suc.prems(2) have "Invoke nm pl \<in> set (fst (invokeLambda e ?s1))"
          by (auto dest: catch_save_trace)
        then have nm: "nm = lambdaName ?s1" and pl: "pl = ?pl"
          by (simp_all add: invokeLambda_trace)
        have "r = Some (ReturnsPromise (Fulfilled (Data ack))) \<and> (\<forall>p. Dropped p \<notin> set tr)"
          if "invoke e nm pl = InvokeData ack" for ack
        proof -
          from that nm pl have "snd (invokeLambda e ?s1) = Fulfilled (Data ack)"
            by (simp add: invokeLambda_result)
          with r tr show ?thesis
            by (simp add: catch_save_Fulfilled invokeLambda_trace)
        qed
        with nm pl s' show ?thesis by (simp add: advanced_fields)
      next
        case te: True
        obtain s2 tr2 r2 where c: "saveRecipients m e (Suc k) (advanced s d) = (s2, tr2, r2)"
          by (cases "saveRecipients m e (Suc k) (advanced s d)") auto
        from Suc.prems(1) True SaveResolved te c
        have s': "s' = s2"
          and tr: "tr = SaveAll (batch_of s) # tr2
                     @ (case r2 of None \<Rightarrow> [] | Some x \<Rightarrow> fst (catch_save e s2 (adopt x)))"
          and r: "r = (case r2 of None \<Rightarrow> None
                       | Some x \<Rightarrow> Some (ReturnsPromise (snd (catch_save e s2 (adopt x)))))"
          by (auto simp: saveRecipients_unfold)
        from tr Suc.prems(2) have inv: "Invoke nm pl \<in> set tr2"
          by (auto split: option.splits dest: catch_save_trace)
        from Suc.IH [OF c inv]
        have nm: "nm = lambdaName (advanced s d)"
          and pl: "pl = \<lparr> pl_s3 = s3Event (advanced s d), pl_importOffset = importOffset s2 \<rparr>"
          and ack: "\<And>ack. invoke e nm pl = InvokeData ack \<Longrightarrow>
                 r2 = Some (ReturnsPromise (Fulfilled (Data ack))) \<and> (\<forall>p. Dropped p \<notin> set tr2)"
          by blast+
        have "r = Some (ReturnsPromise (Fulfilled (Data a))) \<and> (\<forall>p. Dropped p \<notin> set tr)"
          if "invoke e nm pl = InvokeData a" for a
          using ack [OF that] r tr by (simp add: adopt_def catch_save_Fulfilled)
        with nm pl s' show ?thesis by (simp add: advanced_fields)
      qed
    qed
  qed
qed

subsection \<open>Runs on the concrete inputs\<close>

lemmas sample_defs =
  sample_env_def sample_event_def row_of_def sample_error_def sample_recipient_def
  parsed_service_def

lemmas method_defs =
  importAll_def parseFile_def parseCSV_def newRecp_def filterByEmail_def ToString_def
  email_pattern_def at_sign_def full_stop_def is_space_def ascii_def Let_def
  saveRecipients_unfold batch_of_def advanced_def slice_arr_def maxBatchSize_def
  timeEnough_def executionThreshold_def catch_save_def adopt_def invokeLambda_def
  successStatus_def failedStatus_def message_of_def stack_of_def

lemma xls_service_eval:
  "xls_service =
     \<lparr> s3Event = \<lparr> bucket_name = ascii ''uploads'', object_key = ascii ''u1.l1.xls'' \<rparr>,
       importOffset = 0, bucket = ascii ''uploads'',
       fileKey = ascii ''u1.l1.xls'', userId = Some (ascii ''u1''), listId = Some (ascii ''l1''),
       fileExt = Some (ascii ''xls''), corruptedEmails = [], recipients = [],
       totalRecipientsCount = 0, lambdaName = ascii ''importRecipients'', headerMapping = None \<rparr>"
  by (simp add: xls_service_def constructor_def sample_env_def ascii_def
      full_stop_def index_def Let_def)

lemma failing_run:
  "importAll (Suc 0) failing_env sample_service =
   (parsed_service
      \<lparr>totalRecipientsCount := 3,
       corruptedEmails := [Some (ascii ''not-an-email'')],
       recipients := [sample_recipient ''a@b.com'' 0, sample_recipient ''c@d.com'' 2]\<rparr>,
    [GetObject (ascii ''uploads'') (ascii ''u1.l1.csv''), FromString (ascii ''email''),
     SaveAll [sample_recipient ''a@b.com'' 0, sample_recipient ''c@d.com'' 2],
     Dropped (Rejected (Report
       \<lparr> rep_listId = Some (ascii ''l1''), rep_userId = Some (ascii ''u1''),
         rep_totalRecipientsCount = 3, rep_corruptedEmailsCount = 1,
         rep_corruptedEmails = [Some (ascii ''not-an-email'')],
         rep_importedCount = 0, rep_importStatus = FAILED,
         rep_updatedAt = ascii ''Tue Nov 03 2026'', rep_message = Some (ascii ''throttled''),
         rep_stackTrace = Some (ascii ''at saveAll'') \<rparr>))],
    Some (Fulfilled Undefined))"
  by (simp add: sample_service_eval failing_env_def sample_defs method_defs)

lemma loaded_halting:
  "saveRecipients (Suc 0) halting_env 0 loaded_service =
     (loaded_service\<lparr>importOffset := 2\<rparr>,
      [SaveAll [sample_recipient ''a@b.com'' 0, sample_recipient ''c@d.com'' 2],
       Invoke (ascii ''importRecipients'') \<lparr> pl_s3 = sample_event, pl_importOffset = 2 \<rparr>],
      Some (ReturnsPromise (Fulfilled (Data 202))))"
  by (simp add: sample_service_eval loaded_service_def halting_env_def sample_defs method_defs)

lemma loaded_objmap:
  "saveRecipients (Suc (Suc 0)) objmap_env 0 loaded_service =
     (loaded_service\<lparr>importOffset := 2\<rparr>,
      [SaveAll [sample_recipient ''a@b.com'' 0, sample_recipient ''c@d.com'' 2],
       Dropped (Fulfilled (Report
         \<lparr> rep_listId = Some (ascii ''l1''), rep_userId = Some (ascii ''u1''),
           rep_totalRecipientsCount = 3, rep_corruptedEmailsCount = 1,
           rep_corruptedEmails = [Some (ascii ''not-an-email'')],
           rep_importedCount = 2, rep_importStatus = SUCCESS,
           rep_updatedAt = ascii ''Tue Nov 03 2026'', rep_message = None,
           rep_stackTrace = None \<rparr>))],
      Some (ReturnsPromise (Fulfilled Undefined)))"
  by (simp add: sample_service_eval loaded_service_def objmap_env_def sample_defs method_defs)

lemma loaded_batch:
  "batch_of loaded_service = [sample_recipient ''a@b.com'' 0, sample_recipient ''c@d.com'' 2]"
  by (simp add: batch_of_def loaded_service_def parsed_service_def sample_service_eval
      slice_arr_def maxBatchSize_def Let_def)

subsection \<open>The terminal reports\<close>

text \<open>
  Claim C1 on the code: a source without rows. \<open>saveRecipients\<close> builds the SUCCESS
  object with \<open>importedCount = 0\<close> and makes no persistence call, but it hands the object
  to \<open>Promise.resolve\<close> in a statement without \<open>return\<close>: the promise that holds it
  is dropped, the method returns \<open>undefined\<close>, and the promise of \<open>importAll\<close> is
  fulfilled with \<open>undefined\<close>, not with the report.
\<close>

theorem importAll_empty_source:
  "importAll (Suc 0) empty_env sample_service =
   (parsed_service,
    [GetObject (ascii ''uploads'') (ascii ''u1.l1.csv''), FromString (ascii ''email''),
     Dropped (Fulfilled (Report
       \<lparr> rep_listId = Some (ascii ''l1''), rep_userId = Some (ascii ''u1''),
         rep_totalRecipientsCount = 0, rep_corruptedEmailsCount = 0, rep_corruptedEmails = [],
         rep_importedCount = 0, rep_importStatus = SUCCESS,
         rep_updatedAt = ascii ''Tue Nov 03 2026'', rep_message = None,
         rep_stackTrace = None \<rparr>))],
    Some (Fulfilled Undefined))"
  by (simp add: sample_service_eval empty_env_def sample_defs method_defs)

text \<open>
  Claim C2 on the code: the first chunk is rejected by \<open>Recipient.saveAll\<close>. The handler
  builds the FAILED object (\<open>importedCount\<close> the offset before the call, the message and
  the stack of the error) and no re-dispatch is made, but the object goes to
  \<open>Promise.reject\<close> in a statement without \<open>return\<close>: the rejected promise is dropped
  and the promise of \<open>importAll\<close> is fulfilled with \<open>undefined\<close>.
\<close>

theorem importAll_save_rejected:
  "snd (snd (importAll (Suc 0) failing_env sample_service)) = Some (Fulfilled Undefined)
   \<and> fst (snd (importAll (Suc 0) failing_env sample_service)) =
     [GetObject (ascii ''uploads'') (ascii ''u1.l1.csv''), FromString (ascii ''email''),
      SaveAll [sample_recipient ''a@b.com'' 0, sample_recipient ''c@d.com'' 2],
      Dropped (Rejected (Report
        \<lparr> rep_listId = Some (ascii ''l1''), rep_userId = Some (ascii ''u1''),
          rep_totalRecipientsCount = 3, rep_corruptedEmailsCount = 1,
          rep_corruptedEmails = [Some (ascii ''not-an-email'')],
          rep_importedCount = 0, rep_importStatus = FAILED,
          rep_updatedAt = ascii ''Tue Nov 03 2026'', rep_message = Some (ascii ''throttled''),
          rep_stackTrace = Some (ascii ''at saveAll'') \<rparr>))]"
  by (simp add: failing_run)

subsection \<open>The offset\<close>

text \<open>
  Claim C3 on the code: three valid entities, one chunk, and an outcome whose
  \<open>UnprocessedItems\<close> is an Array of one item. Two entities were written, the offset
  advances by \<open>25 - 1\<close>: it ends at 24, beyond the three entities, and the report counts
  24 imported recipients out of 3.
\<close>

theorem importAll_partial_last_chunk:
  "importAll (Suc (Suc 0)) partial_env sample_service =
   (parsed_service
      \<lparr>totalRecipientsCount := 3,
       recipients := [sample_recipient ''a@b.com'' 0, sample_recipient ''c@d.com'' 1,
                      sample_recipient ''e@f.com'' 2],
       importOffset := 24\<rparr>,
    [GetObject (ascii ''uploads'') (ascii ''u1.l1.csv''), FromString (ascii ''email''),
     SaveAll [sample_recipient ''a@b.com'' 0, sample_recipient ''c@d.com'' 1,
              sample_recipient ''e@f.com'' 2],
     Dropped (Fulfilled (Report
       \<lparr> rep_listId = Some (ascii ''l1''), rep_userId = Some (ascii ''u1''),
         rep_totalRecipientsCount = 3, rep_corruptedEmailsCount = 0, rep_corruptedEmails = [],
         rep_importedCount = 24, rep_importStatus = SUCCESS,
         rep_updatedAt = ascii ''Tue Nov 03 2026'', rep_message = None,
         rep_stackTrace = None \<rparr>))],
    Some (Fulfilled Undefined))"
  by (simp add: sample_service_eval sample_defs method_defs partial_env_def)

text \<open>
  Claim C10: an outcome whose \<open>UnprocessedItems\<close> is absent or an object that is not an
  Array advances the offset by the length of the submitted slice: the state of a run that
  halts here has that offset, a run that continues goes on from that offset; the length is
  the smaller of 25 and the number of remaining entities when the offset is not negative.
\<close>

theorem unprocessed_not_array:
  "importOffset s < int (length (recipients s)) \<Longrightarrow>
   saveAll e k (batch_of s) = SaveResolved d \<Longrightarrow>
   d = Absent \<or> (\<exists>m. d = ObjectMap m) \<Longrightarrow>
   (\<not> timeEnough e k \<longrightarrow>
      importOffset (fst (saveRecipients (Suc n) e k s))
        = importOffset s + int (length (batch_of s)))
   \<and> (timeEnough e k \<longrightarrow>
        fst (saveRecipients (Suc n) e k s)
          = fst (saveRecipients n e (Suc k)
                  (s\<lparr>importOffset := importOffset s + int (length (batch_of s))\<rparr>))
        \<and> (\<exists>rest. fst (snd (saveRecipients (Suc n) e k s))
              = SaveAll (batch_of s)
                # fst (snd (saveRecipients n e (Suc k)
                    (s\<lparr>importOffset := importOffset s + int (length (batch_of s))\<rparr>))) @ rest))
   \<and> (0 \<le> importOffset s \<longrightarrow>
        int (length (batch_of s)) = min 25 (int (length (recipients s)) - importOffset s))"
proof -
  assume lt: "importOffset s < int (length (recipients s))"
    and sv: "saveAll e k (batch_of s) = SaveResolved d"
    and d: "d = Absent \<or> (\<exists>m. d = ObjectMap m)"
  have m: "min maxBatchSize (int (length (batch_of s))) = int (length (batch_of s))"
    using length_batch_of [of s] by (simp add: maxBatchSize_def)
  from d have adv: "advanced s d = s\<lparr>importOffset := importOffset s + int (length (batch_of s))\<rparr>"
    by (auto simp: advanced_def m)
  have a: "\<not> timeEnough e k \<longrightarrow>
      importOffset (fst (saveRecipients (Suc n) e k s))
        = importOffset s + int (length (batch_of s))"
    using lt sv by (simp add: saveRecipients_unfold adv)
  have b: "timeEnough e k \<longrightarrow>
        fst (saveRecipients (Suc n) e k s)
          = fst (saveRecipients n e (Suc k)
                  (s\<lparr>importOffset := importOffset s + int (length (batch_of s))\<rparr>))
        \<and> (\<exists>rest. fst (snd (saveRecipients (Suc n) e k s))
              = SaveAll (batch_of s)
                # fst (snd (saveRecipients n e (Suc k)
                    (s\<lparr>importOffset := importOffset s + int (length (batch_of s))\<rparr>))) @ rest)"
    using lt sv by (simp add: saveRecipients_unfold adv split: prod.splits)
  have c: "0 \<le> importOffset s \<longrightarrow>
        int (length (batch_of s)) = min 25 (int (length (recipients s)) - importOffset s)"
    using lt length_slice_arr_inside [where xs = "recipients s" and a = "importOffset s" and n = 25]
    by (simp add: batch_of_def maxBatchSize_def)
  from a b c show ?thesis by blast
qed

text \<open>
  Claim C10 at a concrete input: an object-shaped \<open>UnprocessedItems\<close> that names one
  of two submitted entities; the offset advances by two.
\<close>

theorem unprocessed_not_array_witness:
  "importOffset loaded_service < int (length (recipients loaded_service))
   \<and> saveAll objmap_env 0 (batch_of loaded_service)
       = SaveResolved (ObjectMap [(ascii ''recipients'', [sample_recipient ''a@b.com'' 0])])
   \<and> timeEnough objmap_env 0
   \<and> importOffset (fst (saveRecipients (Suc (Suc 0)) objmap_env 0 loaded_service)) = 2
   \<and> int (length (batch_of loaded_service))
       = min 25 (int (length (recipients loaded_service)) - importOffset loaded_service)"
proof -
  have h1: "importOffset loaded_service < int (length (recipients loaded_service))"
    by (simp add: loaded_service_def parsed_service_def sample_service_eval)
  have h2: "saveAll objmap_env 0 (batch_of loaded_service)
       = SaveResolved (ObjectMap [(ascii ''recipients'', [sample_recipient ''a@b.com'' 0])])"
    by (simp add: objmap_env_def sample_env_def loaded_batch)
  have h3: "timeEnough objmap_env 0"
    by (simp add: timeEnough_def objmap_env_def sample_env_def executionThreshold_def)
  have h4: "0 \<le> importOffset loaded_service"
    by (simp add: loaded_service_def parsed_service_def sample_service_eval)
  have h0: "ObjectMap [(ascii ''recipients'', [sample_recipient ''a@b.com'' 0])] = Absent
      \<or> (\<exists>m. ObjectMap [(ascii ''recipients'', [sample_recipient ''a@b.com'' 0])] = ObjectMap m)"
    by simp
  from unprocessed_not_array [OF h1 h2 h0, of "Suc 0"] h4
  have c: "int (length (batch_of loaded_service))
       = min 25 (int (length (recipients loaded_service)) - importOffset loaded_service)"
    by blast
  have o: "importOffset (fst (saveRecipients (Suc (Suc 0)) objmap_env 0 loaded_service)) = 2"
    by (simp add: loaded_objmap)
  from h1 h2 h3 o c show ?thesis by blast
qed

lemma parseFile_trace:
  "parseFile e s = (s1, tr, p) \<Longrightarrow>
   SaveAll b \<notin> set tr \<and> corruptedEmails s1 = corruptedEmails s"
  by (auto simp: parseFile_def Let_def split: fetch_result.splits if_splits option.splits)

text \<open>
  Claim C7: every slice handed to \<open>Recipient.saveAll\<close>, in any run of
  \<open>saveRecipients\<close> or \<open>importAll\<close>, finished or not, holds at most 25 entities.
\<close>

theorem chunk_bound:
  "(\<forall>b. SaveAll b \<in> set (fst (snd (saveRecipients n e k s))) \<longrightarrow> length b \<le> 25)
   \<and> (\<forall>b. SaveAll b \<in> set (fst (snd (importAll n e s))) \<longrightarrow> length b \<le> 25)"
proof (intro conjI allI impI)
  fix b assume "SaveAll b \<in> set (fst (snd (saveRecipients n e k s)))"
  then show "length b \<le> 25"
    using saveRecipients_chunks [of n e k s] by (cases "saveRecipients n e k s") auto
next
  fix b assume b: "SaveAll b \<in> set (fst (snd (importAll n e s)))"
  obtain s1 tr1 p where pf: "parseFile e s = (s1, tr1, p)"
    by (cases "parseFile e s") auto
  show "length b \<le> 25"
  proof (cases "\<exists>rs. p = Fulfilled (Recipients rs)")
    case False
    with pf have "fst (snd (importAll n e s)) = tr1"
      by (auto simp: importAll_def split: settlement.splits jsvalue.splits)
    with b parseFile_trace [OF pf] show ?thesis by simp
  next
    case True
    then obtain rs where p: "p = Fulfilled (Recipients rs)" by blast
    obtain kept s3 where f: "filter_arr (s1\<lparr>totalRecipientsCount := length rs\<rparr>) rs = (kept, s3)"
      by (cases "filter_arr (s1\<lparr>totalRecipientsCount := length rs\<rparr>) rs") auto
    obtain s5 tr2 r where sr: "saveRecipients n e 0 (s3\<lparr>recipients := kept\<rparr>) = (s5, tr2, r)"
      by (cases "saveRecipients n e 0 (s3\<lparr>recipients := kept\<rparr>)") auto
    from pf p f sr have "fst (snd (importAll n e s)) = tr1 @ tr2"
      by (simp add: importAll_def)
    with b parseFile_trace [OF pf] have "SaveAll b \<in> set tr2" by auto
    with sr show ?thesis by (rule saveRecipients_chunks)
  qed
qed

text \<open>
  Claim C7 at a concrete input: the chunk of a run of two entities.
\<close>

theorem chunk_bound_witness:
  "SaveAll [sample_recipient ''a@b.com'' 0, sample_recipient ''c@d.com'' 2]
     \<in> set (fst (snd (saveRecipients (Suc 0) halting_env 0 loaded_service)))
   \<and> length [sample_recipient ''a@b.com'' 0, sample_recipient ''c@d.com'' 2] \<le> 25"
  using chunk_bound [of "Suc 0" halting_env 0 loaded_service]
  by (simp add: loaded_halting)

subsection \<open>Re-dispatch\<close>

text \<open>
  Claim C6, as stated, fails: the time is too short after the first chunk and the
  re-dispatch call fails. The rejection of \<open>invokeLambda\<close> reaches the \<open>catch\<close> of
  \<open>saveRecipients\<close>, which builds a FAILED report.
\<close>

theorem redispatch_failure_builds_report:
  "\<not> timeEnough stalled_env 0
   \<and> importAll (Suc 0) stalled_env sample_service =
   (loaded_service\<lparr>importOffset := 2\<rparr>,
    [GetObject (ascii ''uploads'') (ascii ''u1.l1.csv''), FromString (ascii ''email''),
     SaveAll [sample_recipient ''a@b.com'' 0, sample_recipient ''c@d.com'' 2],
     Invoke (ascii ''importRecipients'') \<lparr> pl_s3 = sample_event, pl_importOffset = 2 \<rparr>,
     Dropped (Rejected (Report
       \<lparr> rep_listId = Some (ascii ''l1''), rep_userId = Some (ascii ''u1''),
         rep_totalRecipientsCount = 3, rep_corruptedEmailsCount = 1,
         rep_corruptedEmails = [Some (ascii ''not-an-email'')],
         rep_importedCount = 2, rep_importStatus = FAILED,
         rep_updatedAt = ascii ''Tue Nov 03 2026'', rep_message = Some (ascii ''throttled''),
         rep_stackTrace = Some (ascii ''at saveAll'') \<rparr>))],
    Some (Fulfilled Undefined))"
  by (simp add: sample_service_eval loaded_service_def stalled_env_def sample_defs method_defs)

text \<open>
  Claim C6, amended: when the time is too short after a chunk, the call emits a
  re-dispatch request right after the chunk, whose payload holds the S3 event and the
  offset of the state the call ends in, that is the offset after this chunk. In any run,
  a re-dispatch request holds the S3 event and the final offset; when the re-dispatch call
  is acknowledged, the run builds no report and its promise is fulfilled with the
  acknowledgement.
\<close>

theorem redispatch_checkpoint:
  "(importOffset s < int (length (recipients s)) \<longrightarrow>
    saveAll e k (batch_of s) = SaveResolved d \<longrightarrow> \<not> timeEnough e k \<longrightarrow>
      (\<exists>rest. fst (snd (saveRecipients (Suc n) e k s)) =
         [SaveAll (batch_of s),
          Invoke (lambdaName s)
            \<lparr> pl_s3 = s3Event s,
              pl_importOffset = importOffset (fst (saveRecipients (Suc n) e k s)) \<rparr>] @ rest))
   \<and> (saveRecipients m e k s = (s', tr, r) \<longrightarrow> Invoke nm pl \<in> set tr \<longrightarrow>
        nm = lambdaName s \<and> pl = \<lparr> pl_s3 = s3Event s, pl_importOffset = importOffset s' \<rparr>
        \<and> (\<forall>ack. invoke e nm pl = InvokeData ack \<longrightarrow>
              r = Some (ReturnsPromise (Fulfilled (Data ack))) \<and> (\<forall>p. Dropped p \<notin> set tr)))"
proof (intro conjI impI)
  assume "importOffset s < int (length (recipients s))"
    and "saveAll e k (batch_of s) = SaveResolved d" and "\<not> timeEnough e k"
  then show "\<exists>rest. fst (snd (saveRecipients (Suc n) e k s)) =
         [SaveAll (batch_of s),
          Invoke (lambdaName s)
            \<lparr> pl_s3 = s3Event s,
              pl_importOffset = importOffset (fst (saveRecipients (Suc n) e k s)) \<rparr>] @ rest"
    by (simp add: saveRecipients_unfold invokeLambda_trace advanced_fields)
next
  assume "saveRecipients m e k s = (s', tr, r)" and "Invoke nm pl \<in> set tr"
  then show "nm = lambdaName s" 
    and "pl = \<lparr> pl_s3 = s3Event s, pl_importOffset = importOffset s' \<rparr>"
    and "\<forall>ack. invoke e nm pl = InvokeData ack \<longrightarrow>
              r = Some (ReturnsPromise (Fulfilled (Data ack))) \<and> (\<forall>p. Dropped p \<notin> set tr)"
    using saveRecipients_redispatch by blast+
qed

text \<open>
  Claim C6, amended, at a concrete input: two entities, too little time, the re-dispatch
  acknowledged.
\<close>

theorem redispatch_checkpoint_witness:
  "importOffset loaded_service < int (length (recipients loaded_service))
   \<and> saveAll halting_env 0 (batch_of loaded_service) = SaveResolved Absent
   \<and> \<not> timeEnough halting_env 0
   \<and> Invoke (ascii ''importRecipients'') \<lparr> pl_s3 = sample_event, pl_importOffset = 2 \<rparr>
        \<in> set (fst (snd (saveRecipients (Suc 0) halting_env 0 loaded_service)))
   \<and> invoke halting_env (ascii ''importRecipients'')
        \<lparr> pl_s3 = sample_event, pl_importOffset = 2 \<rparr> = InvokeData 202
   \<and> snd (snd (saveRecipients (Suc 0) halting_env 0 loaded_service))
        = Some (ReturnsPromise (Fulfilled (Data 202)))
   \<and> Dropped (Fulfilled Undefined) \<notin> set (fst (snd (saveRecipients (Suc 0) halting_env 0 loaded_service)))"
proof -
  have h1: "importOffset loaded_service < int (length (recipients loaded_service))"
    by (simp add: loaded_service_def parsed_service_def sample_service_eval)
  have h2: "saveAll halting_env 0 (batch_of loaded_service) = SaveResolved Absent"
    by (simp add: halting_env_def sample_env_def)
  have h3: "\<not> timeEnough halting_env 0"
    by (simp add: timeEnough_def halting_env_def sample_env_def executionThreshold_def)
  have h4: "Invoke (ascii ''importRecipients'') \<lparr> pl_s3 = sample_event, pl_importOffset = 2 \<rparr>
        \<in> set (fst (snd (saveRecipients (Suc 0) halting_env 0 loaded_service)))"
    by (simp add: loaded_halting)
  have h5: "invoke halting_env (ascii ''importRecipients'')
        \<lparr> pl_s3 = sample_event, pl_importOffset = 2 \<rparr> = InvokeData 202"
    by (simp add: halting_env_def sample_env_def)
  from redispatch_checkpoint [of loaded_service halting_env 0 Absent 0 "Suc 0"
      "loaded_service\<lparr>importOffset := 2\<rparr>"
      "fst (snd (saveRecipients (Suc 0) halting_env 0 loaded_service))"
      "Some (ReturnsPromise (Fulfilled (Data 202)))"
      "ascii ''importRecipients''" "\<lparr> pl_s3 = sample_event, pl_importOffset = 2 \<rparr>"]
    h1 h2 h3 h4 h5
  show ?thesis
    by (simp add: loaded_halting)
qed

subsection \<open>Fetching\<close>

text \<open>
  Claim C5, as stated, fails: for the key \<open>u1.l1.xls\<close> the object is fetched first;
  the format is looked at in the callback of the fetch. When the fetch fails, the rejection
  is the error of the fetch.
\<close>

theorem unsupported_format_is_fetched:
  "fileExt xls_service = Some (ascii ''xls'')
   \<and> importAll (Suc 0) sample_env xls_service =
       (xls_service, [GetObject (ascii ''uploads'') (ascii ''u1.l1.xls'')],
        Some (Rejected (Message (ascii ''xls is not supported''))))
   \<and> importAll (Suc 0) offline_env xls_service =
       (xls_service, [GetObject (ascii ''uploads'') (ascii ''u1.l1.xls'')],
        Some (Rejected (Error sample_error)))"
  by (simp add: xls_service_eval offline_env_def sample_defs importAll_def parseFile_def
      ToString_def ascii_def)

text \<open>
  Claim C5, amended: for a file extension other than \<open>csv\<close> the source is fetched
  once and nothing else is called: no decoding, no persistence, no report. The import is
  rejected with the error of the fetch when the fetch fails and with the message
  \<open>extension is not supported\<close> when it succeeds.
\<close>

theorem parseFile_unsupported:
  "fileExt s \<noteq> Some (ascii ''csv'') \<Longrightarrow>
   parseFile e s =
     (s, [GetObject (bucket s) (fileKey s)],
      Rejected (case getObject e (bucket s) (fileKey s) of
                  GetObjectError err \<Rightarrow> Error err
                | GetObjectData metadata body \<Rightarrow>
                    Message (ToString (fileExt s) @ ascii '' is not supported'')))
   \<and> importAll n e s =
     (s, [GetObject (bucket s) (fileKey s)],
      Some (Rejected (case getObject e (bucket s) (fileKey s) of
                  GetObjectError err \<Rightarrow> Error err
                | GetObjectData metadata body \<Rightarrow>
                    Message (ToString (fileExt s) @ ascii '' is not supported''))))"
  by (cases "getObject e (bucket s) (fileKey s)") (simp_all add: parseFile_def importAll_def)

text \<open>
  Claim C5, amended, at the key \<open>u1.l1.xls\<close>.
\<close>

theorem parseFile_unsupported_witness:
  "fileExt xls_service \<noteq> Some (ascii ''csv'')
   \<and> importAll (Suc 0) sample_env xls_service =
       (xls_service, [GetObject (ascii ''uploads'') (ascii ''u1.l1.xls'')],
        Some (Rejected (Message (ascii ''xls is not supported''))))"
proof -
  have h: "fileExt xls_service \<noteq> Some (ascii ''csv'')"
    by (simp add: xls_service_eval ascii_def)
  show ?thesis
    using h parseFile_unsupported [OF h, of sample_env "Suc 0"]
    by (simp add: xls_service_eval sample_env_def ToString_def ascii_def)
qed

lemma filterByEmail_count:
  "filterByEmail s r = (keep, s1) \<Longrightarrow>
   totalRecipientsCount s1 = totalRecipientsCount s
   \<and> length (corruptedEmails s1) = length (corruptedEmails s) + (if keep then 0 else 1)"
  by (auto simp: filterByEmail_def Let_def split: if_splits)

lemma filter_arr_count:
  "filter_arr s rs = (kept, s1) \<Longrightarrow>
   totalRecipientsCount s1 = totalRecipientsCount s
   \<and> length kept + length (corruptedEmails s1) = length rs + length (corruptedEmails s)"
proof (induction rs arbitrary: s kept s1)
  case Nil
  then show ?case by simp
next
  case (Cons r rs)
  obtain keep sa where a: "filterByEmail s r = (keep, sa)"
    by (cases "filterByEmail s r") auto
  obtain kept' sb where b: "filter_arr sa rs = (kept', sb)"
    by (cases "filter_arr sa rs") auto
  from Cons.prems a b have k: "kept = (if keep then r # kept' else kept')" and s1: "s1 = sb"
    by auto
  from filterByEmail_count [OF a] Cons.IH [OF b] k s1 show ?case
    by (auto split: if_splits)
qed

text \<open>
  Claim C8: after \<open>importAll\<close> on a fresh service has fetched and decoded the rows,
  \<open>totalRecipientsCount\<close> is the number of rows, and the entities kept plus the
  corrupted emails are as many.
\<close>

theorem importAll_partition:
  "snd (snd (parseFile e (constructor e ev offset fn))) = Fulfilled (Recipients rs) \<Longrightarrow>
   importAll n e (constructor e ev offset fn) = (s', tr, r) \<Longrightarrow>
   totalRecipientsCount s' = length rs
   \<and> length (recipients s') + length (corruptedEmails s') = totalRecipientsCount s'"
proof -
  let ?s = "constructor e ev offset fn"
  assume p: "snd (snd (parseFile e ?s)) = Fulfilled (Recipients rs)"
    and i: "importAll n e ?s = (s', tr, r)"
  obtain s1 tr1 where pf: "parseFile e ?s = (s1, tr1, Fulfilled (Recipients rs))"
    using p by (cases "parseFile e ?s") auto
  obtain kept s3 where f: "filter_arr (s1\<lparr>totalRecipientsCount := length rs\<rparr>) rs = (kept, s3)"
    by (cases "filter_arr (s1\<lparr>totalRecipientsCount := length rs\<rparr>) rs") auto
  obtain s5 tr2 r2 where sr: "saveRecipients n e 0 (s3\<lparr>recipients := kept\<rparr>) = (s5, tr2, r2)"
    by (cases "saveRecipients n e 0 (s3\<lparr>recipients := kept\<rparr>)") auto
  from pf f sr i have s': "s' = s5"
    by (simp add: importAll_def)
  have c0: "corruptedEmails s1 = []"
    using parseFile_trace [OF pf] by (simp add: constructor_def Let_def)
  from filter_arr_count [OF f] c0
  have "totalRecipientsCount s3 = length rs"
    and "length kept + length (corruptedEmails s3) = length rs"
    by simp_all
  with saveRecipients_fields [OF sr] s' show ?thesis by simp
qed

text \<open>
  Claim C8 at a concrete input: three rows, one of them without an email shape.
\<close>

theorem importAll_partition_witness:
  "snd (snd (parseFile failing_env sample_service))
     = Fulfilled (Recipients [sample_recipient ''a@b.com'' 0,
         sample_recipient ''not-an-email'' 1, sample_recipient ''c@d.com'' 2])
   \<and> totalRecipientsCount (fst (importAll (Suc 0) failing_env sample_service)) = 3
   \<and> length (recipients (fst (importAll (Suc 0) failing_env sample_service))) = 2
   \<and> length (corruptedEmails (fst (importAll (Suc 0) failing_env sample_service))) = 1"
proof -
  have h: "snd (snd (parseFile failing_env (constructor failing_env sample_event None
            (ascii ''importRecipients''))))
     = Fulfilled (Recipients [sample_recipient ''a@b.com'' 0,
         sample_recipient ''not-an-email'' 1, sample_recipient ''c@d.com'' 2])"
    by (simp add: constructor_def index_def failing_env_def sample_defs sample_service_eval parseFile_def
        parseCSV_def newRecp_def Let_def ascii_def full_stop_def)
  have c: "constructor failing_env sample_event None (ascii ''importRecipients'') = sample_service"
    by (simp add: sample_service_def constructor_def failing_env_def sample_env_def)
  from importAll_partition [OF h, of "Suc 0"
      "fst (importAll (Suc 0) failing_env sample_service)"
      "fst (snd (importAll (Suc 0) failing_env sample_service))"
      "snd (snd (importAll (Suc 0) failing_env sample_service))"] h
  show ?thesis
    by (simp add: c failing_run parsed_service_def)
qed

subsection \<open>Normalizing a row\<close>

lemma map_zip_upt:
  "map (\<lambda>(i, x). f x) (zip [0 ..< length xs] xs) = map f xs"
proof -
  have "map (\<lambda>(i, x). f x) (zip [0 ..< length xs] xs)
        = map (f \<circ> snd) (zip [0 ..< length xs] xs)"
    by (simp add: case_prod_unfold comp_def)
  also have "\<dots> = map f (map snd (zip [0 ..< length xs] xs))"
    by (simp only: map_map)
  also have "map snd (zip [0 ..< length xs] xs) = xs"
    by (rule map_snd_zip) simp
  finally show ?thesis .
qed

text \<open>
  Claim C9: the id of the entity built for a row is the encoding of the row's email and
  of nothing else: two rows with the same email get the same id, whatever the other
  columns, the column mapping, the owner, the position in the file and the clock.
\<close>

theorem newRecp_id:
  "rcp_id (newRecp e s i data) = encode e (data (ascii ''email''))
   \<and> (encode e = encode e' \<longrightarrow> data (ascii ''email'') = data' (ascii ''email'') \<longrightarrow>
        rcp_id (newRecp e s i data) = rcp_id (newRecp e' s' i' data'))
   \<and> map rcp_id (parseCSV e s csvString) =
        map (\<lambda>data. encode e (data (ascii ''email''))) (fromString e csvString)"
proof -
  have "map rcp_id (parseCSV e s csvString) =
        map (\<lambda>(i, data). encode e (data (ascii ''email'')))
          (zip [0 ..< length (fromString e csvString)] (fromString e csvString))"
    by (simp add: parseCSV_def Let_def newRecp_def case_prod_unfold comp_def)
  then show ?thesis
    by (simp add: newRecp_def map_zip_upt)
qed

text \<open>
  Claim C9 at a concrete input: the same row, normalized in two runs.
\<close>

theorem newRecp_id_witness:
  "encode sample_env = encode empty_env
   \<and> row_of ''a@b.com'' (ascii ''email'') = row_of ''a@b.com'' (ascii ''email'')
   \<and> rcp_id (newRecp sample_env sample_service 0 (row_of ''a@b.com''))
       = rcp_id (newRecp empty_env parsed_service 7 (row_of ''a@b.com''))"
proof -
  have h: "encode sample_env = encode empty_env"
    by (simp add: empty_env_def sample_env_def)
  from newRecp_id [of sample_env sample_service 0 "row_of ''a@b.com''" empty_env
      "row_of ''a@b.com''" parsed_service 7 "[]"] h
  show ?thesis by blast
qed

end
